theory Spec2Isabelle
  imports Complex_Main
begin

section \<open>Numbers and vectors\<close>

text \<open>
  The simulator computes with C++ \<open>float\<close> and \<open>double\<close>. The embedding reads every
  finite floating-point value as the real number it denotes and every arithmetic
  operation as the exact operation on reals; rounding, overflow to infinity and
  underflow are outside the model. The one place where the program can leave the finite
  numbers without dividing by zero is the square root of the curvature field; there a
  value is a \<open>real option\<close> and \<open>None\<close> is the NaN that \<open>sqrt\<close> returns on a negative
  argument. A literal is read as the decimal it writes, so \<open>1.0f/3.0f\<close> is one third
  and \<open>- 0.2f\<close> is minus one fifth. Division by a zero mass or a zero density (infinity
  or NaN in C++, \<open>0\<close> in HOL) is not modelled: the statements about the value of a
  quotient carry the hypothesis that the divisor is positive, and every concrete scene
  has positive masses and densities.
\<close>

datatype vec3 = Vec3 (vx: real) (vy: real) (vz: real)

definition vscale :: "real \<Rightarrow> vec3 \<Rightarrow> vec3" where
  \<comment> \<open>\<open>glm::vec3 *= float\<close>\<close>
  "vscale k v = Vec3 (vx v * k) (vy v * k) (vz v * k)"

definition vlength :: "real \<Rightarrow> real \<Rightarrow> real \<Rightarrow> real" where
  \<comment> \<open>\<open>sqrt(dx * dx + dy * dy + dz * dz)\<close>, also written \<open>std::pow(..., 1.0f/2.0f)\<close>
      and \<open>glm::length\<close>\<close>
  "vlength dx dy dz = sqrt (dx * dx + dy * dy + dz * dz)"

definition G :: real where
  "G = 66743 / 10 ^ 15"

definition c :: real where
  "c = 299792458"

section \<open>Bodies\<close>

text \<open>
  \<open>class Object\<close>. The OpenGL handles (\<open>VAO\<close>, \<open>VBO\<close>, \<open>vertexCount\<close>), the colour and
  the unused members \<open>target\<close> and \<open>LastPos\<close> are left out; a \<open>TrailSphere\<close> is reduced
  to its position for the same reason.
\<close>

record Object =
  position :: vec3
  velocity :: vec3
  Initalizing :: bool
  Launched :: bool
  mass :: real
  density :: real
  radius :: real
  trailSpheres :: "vec3 list"
  maxTrailLength :: int
  hasTrail :: bool

definition sphere_radius :: "real \<Rightarrow> real \<Rightarrow> real" where
  \<comment> \<open>\<open>pow(((3 * mass/density)/(4 * 3.14159265359)), (1.0f/3.0f)) / 100000\<close>\<close>
  "sphere_radius m d = ((3 * m / d) / (4 * 3.14159265359)) powr (1 / 3) / 100000"

definition Object_new :: "vec3 \<Rightarrow> vec3 \<Rightarrow> real \<Rightarrow> real \<Rightarrow> Object" where
  \<comment> \<open>the constructor \<open>Object(initPosition, initVelocity, mass, density)\<close>\<close>
  "Object_new initPosition initVelocity m d =
     \<lparr> position = initPosition, velocity = initVelocity,
       Initalizing = False, Launched = False,
       mass = m, density = d, radius = sphere_radius m d,
       trailSpheres = [], maxTrailLength = 30, hasTrail = False \<rparr>"

definition radius_ok :: "Object \<Rightarrow> bool" where
  \<comment> \<open>the stored radius is the one the source's formula gives for the stored mass and
      density\<close>
  "radius_ok obj = (radius obj = sphere_radius (mass obj) (density obj))"

definition size_t_of_int :: "int \<Rightarrow> nat" where
  \<comment> \<open>\<open>static_cast<size_t>(int)\<close> on a 64-bit target\<close>
  "size_t_of_int n = nat (n mod 2 ^ 64)"

definition UpdateTrail :: "Object \<Rightarrow> int \<Rightarrow> Object \<times> int" where
  \<comment> \<open>\<open>Object::UpdateTrail\<close>; the second component is the function's
      \<open>static int frameCount\<close>, one counter for the whole program, read as an unbounded
      integer (it starts at 0 and takes \<open>2 ^ 31\<close> calls to overflow)\<close>
  "UpdateTrail obj frameCount =
     (if \<not> hasTrail obj then (obj, frameCount)
      else
        let fc = frameCount + 1 in
        if fc mod 5 = 0 then
          let pushed = trailSpheres obj @ [position obj];
              kept = (if length pushed > size_t_of_int (maxTrailLength obj)
                      then tl pushed else pushed)
          in (obj\<lparr>trailSpheres := kept\<rparr>, fc)
        else (obj, fc))"

definition UpdatePos :: "real \<Rightarrow> Object \<Rightarrow> int \<Rightarrow> Object \<times> int" where
  \<comment> \<open>\<open>Object::UpdatePos\<close>, reading the global \<open>simulationSpeed\<close>\<close>
  "UpdatePos simulationSpeed obj frameCount =
     (let p = position obj; v = velocity obj;
          moved = obj\<lparr>position := Vec3 (vx p + vx v / 94 * simulationSpeed)
                                         (vy p + vy v / 94 * simulationSpeed)
                                         (vz p + vz v / 94 * simulationSpeed),
                      radius := sphere_radius (mass obj) (density obj)\<rparr>
      in if hasTrail moved then UpdateTrail moved frameCount else (moved, frameCount))"

definition accelerate :: "real \<Rightarrow> vec3 \<Rightarrow> Object \<Rightarrow> Object" where
  \<comment> \<open>\<open>Object::accelerate(x, y, z)\<close>\<close>
  "accelerate simulationSpeed a obj =
     (let v = velocity obj in
      obj\<lparr>velocity := Vec3 (vx v + vx a / 96 * simulationSpeed)
                            (vy v + vy a / 96 * simulationSpeed)
                            (vz v + vz a / 96 * simulationSpeed)\<rparr>)"

definition CheckCollision :: "Object \<Rightarrow> Object \<Rightarrow> real" where
  \<comment> \<open>\<open>this->CheckCollision(other)\<close>\<close>
  "CheckCollision this other =
     (let dx = vx (position other) - vx (position this);
          dy = vy (position other) - vy (position this);
          dz = vz (position other) - vz (position this);
          distance = vlength dx dy dz
      in if radius other + radius this > distance then - 0.2 else 1.0)"

section \<open>The trail buffer\<close>

definition lastn :: "nat \<Rightarrow> 'a list \<Rightarrow> 'a list" where
  \<comment> \<open>the \<open>k\<close> most recent entries of a list kept oldest-first\<close>
  "lastn k xs = drop (length xs - k) xs"

fun trail_calls :: "(vec3 \<times> int) list \<Rightarrow> Object \<Rightarrow> Object" where
  \<comment> \<open>successive calls of \<open>UpdateTrail\<close> on one body; each call comes with the position
      the body has then and the value the shared counter has then\<close>
  "trail_calls [] obj = obj"
| "trail_calls ((p, frameCount) # rest) obj =
     trail_calls rest (fst (UpdateTrail (obj\<lparr>position := p\<rparr>) frameCount))"

definition sampled :: "(vec3 \<times> int) list \<Rightarrow> vec3 list" where
  \<comment> \<open>the positions of the calls at which the counter reaches a multiple of five\<close>
  "sampled calls = map fst (filter (\<lambda>(p, frameCount). (frameCount + 1) mod 5 = 0) calls)"

section \<open>One tick of the main loop\<close>

definition separation :: "Object \<Rightarrow> Object \<Rightarrow> real" where
  \<comment> \<open>the \<open>distance\<close> of the pair loop and of \<open>CheckCollision\<close>, in position units\<close>
  "separation obj obj2 =
     vlength (vx (position obj2) - vx (position obj))
             (vy (position obj2) - vy (position obj))
             (vz (position obj2) - vz (position obj))"

definition vnorm :: "vec3 \<Rightarrow> real" where
  \<comment> \<open>the magnitude of a vector, for the statements about accelerations\<close>
  "vnorm v = vlength (vx v) (vy v) (vz v)"

definition gravity_acc :: "Object \<Rightarrow> Object \<Rightarrow> vec3" where
  \<comment> \<open>the vector \<open>acc\<close> that the pair loop of \<open>main\<close> computes for \<open>obj\<close> from \<open>obj2\<close>\<close>
  "gravity_acc obj obj2 =
     (let dx = vx (position obj2) - vx (position obj);
          dy = vy (position obj2) - vy (position obj);
          dz = vz (position obj2) - vz (position obj);
          distance = vlength dx dy dz;
          direction = Vec3 (dx / distance) (dy / distance) (dz / distance);
          distance_m = distance * 1000;
          Gforce = (G * mass obj * mass obj2) / (distance_m * distance_m);
          acc1 = Gforce / mass obj
      in Vec3 (vx direction * acc1) (vy direction * acc1) (vz direction * acc1))"

definition interact :: "bool \<Rightarrow> real \<Rightarrow> Object \<Rightarrow> Object \<Rightarrow> Object" where
  \<comment> \<open>the body of the inner \<open>for(auto& obj2 : objs)\<close> for an \<open>obj2\<close> other than \<open>obj\<close>\<close>
  "interact pause simulationSpeed obj obj2 =
     (if \<not> Initalizing obj \<and> \<not> Initalizing obj2 then
        let dx = vx (position obj2) - vx (position obj);
            dy = vy (position obj2) - vy (position obj);
            dz = vz (position obj2) - vz (position obj);
            distance = vlength dx dy dz
        in if distance > 0 then
             let accelerated =
                   (if \<not> pause then accelerate simulationSpeed (gravity_acc obj obj2) obj
                    else obj)
             in accelerated\<lparr>velocity :=
                  vscale (CheckCollision accelerated obj2) (velocity accelerated)\<rparr>
           else obj
      else obj)"

fun pair_loop :: "bool \<Rightarrow> real \<Rightarrow> nat \<Rightarrow> nat \<Rightarrow> Object list \<Rightarrow> Object \<Rightarrow> Object" where
  \<comment> \<open>the inner loop over the vector, from element \<open>j\<close> on; \<open>&obj2 != &obj\<close> is \<open>j \<noteq> i\<close>\<close>
  "pair_loop pause simulationSpeed i j [] obj = obj"
| "pair_loop pause simulationSpeed i j (obj2 # rest) obj =
     pair_loop pause simulationSpeed i (Suc j) rest
       (if j \<noteq> i then interact pause simulationSpeed obj obj2 else obj)"

definition process_body :: "bool \<Rightarrow> real \<Rightarrow> Object list \<Rightarrow> Object \<Rightarrow> nat \<Rightarrow> int \<Rightarrow> Object \<times> int" where
  \<comment> \<open>the body of the outer \<open>for(auto& obj : objs)\<close> for the element \<open>obj\<close> at index \<open>i\<close>,
      the other bodies being read from \<open>others\<close>\<close>
  "process_body pause simulationSpeed others obj i frameCount =
     (let pulled = pair_loop pause simulationSpeed i 0 others obj;
          sized = (if Initalizing pulled
                   then pulled\<lparr>radius := sphere_radius (mass pulled) (density pulled)\<rparr>
                   else pulled)
      in if \<not> pause then UpdatePos simulationSpeed sized frameCount
         else (sized, frameCount))"

function tick_loop :: "bool \<Rightarrow> real \<Rightarrow> nat \<Rightarrow> Object list \<Rightarrow> int \<Rightarrow> Object list \<times> int" where
  \<comment> \<open>the outer loop from index \<open>i\<close> on: each body is updated in place in the vector
      that the later bodies read\<close>
  "tick_loop pause simulationSpeed i objs frameCount =
     (if i < length objs then
        (case process_body pause simulationSpeed objs (objs ! i) i frameCount of
           (obj', frameCount') \<Rightarrow>
             tick_loop pause simulationSpeed (Suc i) (objs[i := obj']) frameCount')
      else (objs, frameCount))"
  by pat_completeness auto
termination
  by (relation "measure (\<lambda>(pause, simulationSpeed, i, objs, frameCount). length objs - i)") auto

declare tick_loop.simps [simp del]

definition tick :: "bool \<Rightarrow> real \<Rightarrow> Object list \<Rightarrow> int \<Rightarrow> Object list \<times> int" where
  \<comment> \<open>the physics of one iteration of the \<open>while\<close> loop of \<open>main\<close>\<close>
  "tick pause simulationSpeed objs frameCount = tick_loop pause simulationSpeed 0 objs frameCount"

fun ticks :: "nat \<Rightarrow> bool \<Rightarrow> real \<Rightarrow> Object list \<times> int \<Rightarrow> Object list \<times> int" where
  \<comment> \<open>\<open>n\<close> iterations of the \<open>while\<close> loop of \<open>main\<close>, the counter carried along\<close>
  "ticks 0 pause simulationSpeed state = state"
| "ticks (Suc n) pause simulationSpeed (objs, frameCount) =
     ticks n pause simulationSpeed (tick pause simulationSpeed objs frameCount)"

definition trail_sizes :: "Object list \<Rightarrow> nat list" where
  \<comment> \<open>how many samples each body's trail holds\<close>
  "trail_sizes objs = map (\<lambda>obj. length (trailSpheres obj)) objs"

function snapshot_loop ::
  "bool \<Rightarrow> real \<Rightarrow> Object list \<Rightarrow> nat \<Rightarrow> Object list \<Rightarrow> int \<Rightarrow> Object list \<times> int" where
  \<comment> \<open>the compute-then-apply reference of the specification: the loop of \<open>tick_loop\<close>,
      except that every body reads the other bodies from \<open>snapshot\<close>, the vector as it
      was when the tick began\<close>
  "snapshot_loop pause simulationSpeed snapshot i objs frameCount =
     (if i < length objs then
        (case process_body pause simulationSpeed snapshot (objs ! i) i frameCount of
           (obj', frameCount') \<Rightarrow>
             snapshot_loop pause simulationSpeed snapshot (Suc i) (objs[i := obj']) frameCount')
      else (objs, frameCount))"
  by pat_completeness auto
termination
  by (relation "measure (\<lambda>(pause, simulationSpeed, snapshot, i, objs, frameCount). length objs - i)")
    auto

declare snapshot_loop.simps [simp del]

definition snapshot_tick :: "bool \<Rightarrow> real \<Rightarrow> Object list \<Rightarrow> int \<Rightarrow> Object list \<times> int" where
  "snapshot_tick pause simulationSpeed objs frameCount =
     snapshot_loop pause simulationSpeed objs 0 objs frameCount"

definition trail_count :: "bool \<Rightarrow> Object list \<Rightarrow> int" where
  \<comment> \<open>by how much the bodies \<open>objs\<close> advance \<open>frameCount\<close> in one tick: one for
      each call of \<open>UpdateTrail\<close> that passes its guard\<close>
  "trail_count pause objs = (if pause then 0 else int (length (filter hasTrail objs)))"

section \<open>Creating and growing a body\<close>

definition initMass :: real where
  \<comment> \<open>\<open>5.0f * pow(10, 20) / 5\<close>\<close>
  "initMass = 5 * 10 ^ 20 / 5"

definition mouse_press :: "Object list \<Rightarrow> Object list" where
  \<comment> \<open>\<open>mouseButtonCallback\<close>, left button pressed\<close>
  "mouse_press objs =
     objs @ [(Object_new (Vec3 0 0 0) (Vec3 0 0 0) initMass 3344)\<lparr>Initalizing := True\<rparr>]"

definition mouse_release :: "Object list \<Rightarrow> Object list option" where
  \<comment> \<open>\<open>mouseButtonCallback\<close>, left button released; \<open>None\<close> is the access to
      \<open>objs[objs.size()-1]\<close> of an empty vector\<close>
  "mouse_release objs =
     (if objs = [] then None
      else Some (objs[length objs - 1 := (last objs)\<lparr>Initalizing := False, Launched := True\<rparr>]))"

definition grow_last :: "bool \<Rightarrow> real \<Rightarrow> Object list \<Rightarrow> Object list" where
  \<comment> \<open>the block of \<open>main\<close> under \<open>objs.back().Initalizing\<close>, commented
      "Increase mass by 1% per second"; \<open>rightPressed\<close> is the state of the right button\<close>
  "grow_last rightPressed deltaTime objs =
     (if objs \<noteq> [] \<and> Initalizing (last objs) then
        (if rightPressed then
           (let m = mass (last objs) * (1.0 + 1.0 * deltaTime)
            in objs[length objs - 1 :=
                 (last objs)\<lparr>mass := m, radius := sphere_radius m (density (last objs))\<rparr>])
         else objs)
      else objs)"

fun grow_frames :: "real list \<Rightarrow> Object list \<times> int \<Rightarrow> Object list \<times> int" where
  \<comment> \<open>successive iterations of the \<open>while\<close> loop of \<open>main\<close> with the right button held,
      one per \<open>deltaTime\<close>, unpaused and at speed 1: the growth block, then the tick\<close>
  "grow_frames [] state = state"
| "grow_frames (deltaTime # rest) (objs, frameCount) =
     grow_frames rest (tick False 1 (grow_last True deltaTime objs) frameCount)"

section \<open>The events of a run\<close>

datatype arrow = UP | DOWN | LEFT | RIGHT

fun nudge :: "arrow \<Rightarrow> bool \<Rightarrow> vec3 \<Rightarrow> vec3" where
  \<comment> \<open>what \<open>keyCallback\<close> adds to the position on a press or repeat of an arrow key\<close>
  "nudge UP shiftPressed (Vec3 x y z) = Vec3 x (if \<not> shiftPressed then y + 0.5 else y) (z + 0.5)"
| "nudge DOWN shiftPressed (Vec3 x y z) = Vec3 x (if \<not> shiftPressed then y - 0.5 else y) (z - 0.5)"
| "nudge RIGHT shiftPressed (Vec3 x y z) = Vec3 (x + 0.5) y z"
| "nudge LEFT shiftPressed (Vec3 x y z) = Vec3 (x - 0.5) y z"

definition keyCallback :: "arrow \<Rightarrow> bool \<Rightarrow> Object list \<Rightarrow> Object list" where
  \<comment> \<open>the arrow keys of \<open>keyCallback\<close>; its number keys set \<open>simulationSpeed\<close>, which
      every frame takes as a parameter here\<close>
  "keyCallback key shiftPressed objs =
     (if objs \<noteq> [] \<and> Initalizing (last objs) then
        objs[length objs - 1 :=
          (last objs)\<lparr>position := nudge key shiftPressed (position (last objs))\<rparr>]
      else objs)"

datatype event =
    Frame bool real bool real
  | LeftPress
  | LeftRelease
  | Arrow arrow bool



fun step :: "event \<Rightarrow> Object list \<times> int \<Rightarrow> (Object list \<times> int) option" where
  \<comment> \<open>\<open>None\<close> is the access to the last element of an empty vector\<close>
  "step (Frame pause simulationSpeed rightPressed deltaTime) (objs, frameCount) =
     Some (tick pause simulationSpeed (grow_last rightPressed deltaTime objs) frameCount)"
| "step LeftPress (objs, frameCount) = Some (mouse_press objs, frameCount)"
| "step LeftRelease (objs, frameCount) =
     map_option (\<lambda>objs'. (objs', frameCount)) (mouse_release objs)"
| "step (Arrow key shiftPressed) (objs, frameCount) =
     Some (keyCallback key shiftPressed objs, frameCount)"



section \<open>The curvature grid\<close>

definition grid_vertices :: "real \<Rightarrow> int \<Rightarrow> real list" where
  \<comment> \<open>the two line loops of \<open>CreateGridVertices\<close>, before the displacement;
      \<open>gsize\<close> is the parameter \<open>size\<close>\<close>
  "grid_vertices gsize divisions =
     (let step = gsize / of_int divisions;
          halfSize = gsize / 2.0;
          y = - halfSize * 0.3 + 3 * step
      in concat (map (\<lambda>zStep.
                   let z = - halfSize + of_int zStep * step
                   in concat (map (\<lambda>xStep.
                        let xStart = - halfSize + of_int xStep * step;
                            xEnd = xStart + step
                        in [xStart, y, z, xEnd, y, z]) [0..divisions - 1])) [0..divisions])
         @ concat (map (\<lambda>xStep.
                   let x = - halfSize + of_int xStep * step
                   in concat (map (\<lambda>zStep.
                        let zStart = - halfSize + of_int zStep * step;
                            zEnd = zStart + step
                        in [x, y, zStart, x, y, zEnd]) [0..divisions - 1])) [0..divisions]))"

definition c_sqrt :: "real \<Rightarrow> real option" where
  \<comment> \<open>\<open>sqrt\<close> of C: NaN on a negative argument\<close>
  "c_sqrt a = (if a < 0 then None else Some (sqrt a))"

definition fadd :: "real option \<Rightarrow> real option \<Rightarrow> real option" where
  \<comment> \<open>floating-point addition: NaN if either operand is\<close>
  "fadd a b = (case a of None \<Rightarrow> None | Some u \<Rightarrow> map_option (\<lambda>v. u + v) b)"

definition schwarzschild :: "Object \<Rightarrow> real" where
  \<comment> \<open>\<open>float rs = (2*G*obj.mass)/(c*c)\<close>\<close>
  "schwarzschild obj = (2 * G * mass obj) / (c * c)"

definition distance_m :: "vec3 \<Rightarrow> Object \<Rightarrow> real" where
  \<comment> \<open>\<open>glm::length(obj.GetPos() - vertexPos) * 1000.0f\<close>\<close>
  "distance_m vertexPos obj =
     vlength (vx (position obj) - vx vertexPos)
             (vy (position obj) - vy vertexPos)
             (vz (position obj) - vz vertexPos) * 1000.0"

definition well_depth :: "vec3 \<Rightarrow> Object \<Rightarrow> real option" where
  \<comment> \<open>the \<open>float z = 2 * sqrt(rs*(distance_m - rs)) * 100.0f\<close> that the displacement
      pass computes for one body\<close>
  "well_depth vertexPos obj =
     map_option (\<lambda>s. 2 * s * 100.0)
       (c_sqrt (schwarzschild obj * (distance_m vertexPos obj - schwarzschild obj)))"

fun totalDisplacement :: "vec3 \<Rightarrow> Object list \<Rightarrow> real option \<Rightarrow> real option" where
  \<comment> \<open>\<open>for (const auto& obj : objs) totalDisplacement += z\<close>; the three components of
      the \<open>glm::vec3\<close> are equal\<close>
  "totalDisplacement vertexPos [] sofar = sofar"
| "totalDisplacement vertexPos (obj # rest) sofar =
     totalDisplacement vertexPos rest (fadd sofar (well_depth vertexPos obj))"

fun displace :: "real list \<Rightarrow> Object list \<Rightarrow> real option list option" where
  \<comment> \<open>the displacement pass, three floats at a time; the outer \<open>None\<close> is a read past
      the end of a vector whose size is not a multiple of three\<close>
  "displace [] objs = Some []"
| "displace (x # y # z # rest) objs =
     (case displace rest objs of
        None \<Rightarrow> None
      | Some out \<Rightarrow>
          Some (Some x
                # map_option (\<lambda>t. (y + t) / 15.0 - 3000.0)
                    (totalDisplacement (Vec3 x y z) objs (Some 0))
                # Some z # out))"
| "displace [x] objs = None"
| "displace [x, y] objs = None"

definition CreateGridVertices :: "real \<Rightarrow> int \<Rightarrow> Object list \<Rightarrow> real option list option" where
  "CreateGridVertices gsize divisions objs = displace (grid_vertices gsize divisions) objs"

section \<open>Scenes used as concrete inputs\<close>

definition corner_body :: Object where
  \<comment> \<open>a body of the Sun's mass and density resting at the first vertex of the grid that
      \<open>main\<close> draws, \<open>CreateGridVertices(10000.0f, 50, objs)\<close>\<close>
  "corner_body =
     Object_new (Vec3 (- 5000) (- 900) (- 5000)) (Vec3 0 0 0) (1.989 * 10 ^ 30) 1408"

definition pair_scene :: "Object list" where
  \<comment> \<open>two launched bodies of radius 1 on the x-axis, ten units apart, the first one
      moving towards the second\<close>
  "pair_scene =
     [Object_new (Vec3 0 0 0) (Vec3 94 0 0) 12566370614360000 3,
      Object_new (Vec3 10 0 0) (Vec3 0 0 0) 12566370614360000 3]"

definition coincident_scene :: "Object list" where
  \<comment> \<open>two launched bodies of radius 1 at the same place\<close>
  "coincident_scene =
     [Object_new (Vec3 0 0 0) (Vec3 1 0 0) 12566370614360000 3,
      Object_new (Vec3 0 0 0) (Vec3 0 0 0) 12566370614360000 3]"

definition overlap_scene :: "Object list" where
  \<comment> \<open>two launched bodies of radius 1 whose centres are one unit apart\<close>
  "overlap_scene =
     [Object_new (Vec3 0 0 0) (Vec3 1 0 0) 12566370614360000 3,
      Object_new (Vec3 1 0 0) (Vec3 0 0 0) 12566370614360000 3]"


definition trail_five ::
  "Object \<Rightarrow> Object \<Rightarrow> Object \<Rightarrow> Object \<Rightarrow> Object \<Rightarrow> Object list" where
  \<comment> \<open>any five bodies, each with \<open>hasTrail\<close> set and no sample yet\<close>
  "trail_five a b c' d e =
     map (\<lambda>obj. obj\<lparr>trailSpheres := [], maxTrailLength := 30, hasTrail := True\<rparr>)
       [a, b, c', d, e]"

definition trail_ready :: "nat \<Rightarrow> Object \<Rightarrow> bool" where
  \<comment> \<open>a trail-enabled body of capacity 30 that holds \<open>n\<close> samples\<close>
  "trail_ready n obj =
     (hasTrail obj \<and> maxTrailLength obj = 30 \<and> length (trailSpheres obj) = n)"

section \<open>Properties of the trail buffer\<close>

lemma lastn_snoc_tl:
  assumes "length xs \<le> k" and "k < length (xs @ [x])"
  shows "tl (xs @ [x]) = lastn k (xs @ [x])"
proof -
  from assms have len: "length xs = k" by simp
  have "lastn k (xs @ [x]) = drop (Suc 0) (xs @ [x])"
    unfolding lastn_def using len by (simp del: drop_append)
  also have "\<dots> = tl (xs @ [x])" by (simp only: drop_Suc drop_0)
  finally show ?thesis by simp
qed

lemma lastn_short: "length xs \<le> k \<Longrightarrow> lastn k xs = xs"
  by (simp add: lastn_def)

lemma lastn_lastn_snoc: "lastn k (lastn k xs @ [x]) = lastn k (xs @ [x])"
proof (cases "length xs \<le> k \<or> k = 0")
  case True
  then show ?thesis by (auto simp add: lastn_def)
next
  case False
  then obtain j where k: "k = Suc j" by (cases k) auto
  from False have "length (lastn k xs) = k" by (simp add: lastn_def)
  then have "lastn k (lastn k xs @ [x]) = drop (Suc 0) (lastn k xs) @ [x]"
    using k by (simp add: lastn_def)
  moreover have "lastn k (xs @ [x]) = drop (Suc (length xs - k)) xs @ [x]"
    using False by (simp add: lastn_def Suc_diff_le)
  moreover have "drop (Suc 0) (lastn k xs) = drop (Suc (length xs - k)) xs"
    by (simp add: lastn_def)
  ultimately show ?thesis by simp
qed

lemma length_lastn: "length (lastn k xs) \<le> k"
  by (simp add: lastn_def)

lemma UpdateTrail_trail:
  assumes "hasTrail obj" and "maxTrailLength obj = 30"
    and "length (trailSpheres obj) \<le> 30"
  shows "trailSpheres (fst (UpdateTrail obj frameCount)) =
           (if (frameCount + 1) mod 5 = 0
            then lastn 30 (trailSpheres obj @ [position obj])
            else trailSpheres obj)"
proof (cases "(frameCount + 1) mod 5 = 0")
  case True
  have cap: "size_t_of_int (maxTrailLength obj) = 30"
    using assms(2) by (simp add: size_t_of_int_def)
  show ?thesis
  proof (cases "length (trailSpheres obj @ [position obj]) > 30")
    case over: True
    then have "tl (trailSpheres obj @ [position obj]) =
                 lastn 30 (trailSpheres obj @ [position obj])"
      using assms(3) by (intro lastn_snoc_tl) auto
    then show ?thesis
      using True over assms(1) cap by (simp add: UpdateTrail_def Let_def)
  next
    case under: False
    then have "lastn 30 (trailSpheres obj @ [position obj]) = trailSpheres obj @ [position obj]"
      by (intro lastn_short) simp
    then show ?thesis
      using True under assms(1) cap by (simp add: UpdateTrail_def Let_def)
  qed
next
  case False
  then show ?thesis using assms(1) by (simp add: UpdateTrail_def Let_def)
qed

lemma UpdateTrail_frame:
  "hasTrail (fst (UpdateTrail obj frameCount)) = hasTrail obj \<and>
   maxTrailLength (fst (UpdateTrail obj frameCount)) = maxTrailLength obj"
  by (simp add: UpdateTrail_def Let_def)

lemma trail_calls_lastn:
  assumes "hasTrail obj" and "maxTrailLength obj = 30"
  shows "trailSpheres (trail_calls calls obj) = lastn 30 (trailSpheres obj @ sampled calls)
         \<or> length (trailSpheres obj) > 30"
  using assms
proof (induction calls arbitrary: obj)
  case Nil
  show ?case
    by (cases "length (trailSpheres obj) > 30") (simp_all add: sampled_def lastn_def)
next
  case (Cons call calls)
  obtain p frameCount where call: "call = (p, frameCount)" by (cases call)
  let ?o = "obj\<lparr>position := p\<rparr>"
  let ?n = "fst (UpdateTrail ?o frameCount)"
  show ?case
  proof (cases "length (trailSpheres obj) > 30")
    case True
    then show ?thesis by simp
  next
    case False
    then have small: "length (trailSpheres ?o) \<le> 30" by simp
    have ht: "hasTrail ?o" and mx: "maxTrailLength ?o = 30"
      using Cons.prems by simp_all
    have step: "trailSpheres ?n =
                  (if (frameCount + 1) mod 5 = 0 then lastn 30 (trailSpheres obj @ [p])
                   else trailSpheres obj)"
      using UpdateTrail_trail [OF ht mx small, of frameCount] by simp
    have n_ok: "hasTrail ?n" "maxTrailLength ?n = 30"
      using UpdateTrail_frame [of ?o frameCount] ht mx by simp_all
    have n_len: "length (trailSpheres ?n) \<le> 30"
      using step False by (simp add: length_lastn)
    from Cons.IH [OF n_ok] n_len
    have ih: "trailSpheres (trail_calls calls ?n) = lastn 30 (trailSpheres ?n @ sampled calls)"
      by simp
    have glue: "lastn 30 (lastn 30 (trailSpheres obj @ [p]) @ ys) =
                lastn 30 (trailSpheres obj @ [p] @ ys)" for ys
    proof (induction ys rule: rev_induct)
      case Nil
      then show ?case by (simp add: lastn_def)
    next
      case (snoc y ys)
      have "lastn 30 (lastn 30 (trailSpheres obj @ [p]) @ ys @ [y]) =
            lastn 30 (lastn 30 (lastn 30 (trailSpheres obj @ [p]) @ ys) @ [y])"
        using lastn_lastn_snoc [of 30 "lastn 30 (trailSpheres obj @ [p]) @ ys" y] by simp
      also have "\<dots> = lastn 30 (lastn 30 (trailSpheres obj @ [p] @ ys) @ [y])"
        using snoc by simp
      also have "\<dots> = lastn 30 (trailSpheres obj @ [p] @ ys @ [y])"
        using lastn_lastn_snoc [of 30 "trailSpheres obj @ [p] @ ys" y] by simp
      finally show ?case .
    qed
    show ?thesis
    proof (cases "(frameCount + 1) mod 5 = 0")
      case True
      then have "sampled (call # calls) = p # sampled calls"
        by (simp add: sampled_def call)
      then show ?thesis using ih step True glue [of "sampled calls"] call by simp
    next
      case False
      then have "sampled (call # calls) = sampled calls"
        by (simp add: sampled_def call)
      then show ?thesis using ih step False call by simp
    qed
  qed
qed

text \<open>
  C7. A trail-enabled body created by the constructor (empty trail, capacity 30) whose
  \<open>UpdateTrail\<close> is then called any number of times, at any positions and with any
  values of the counter, holds at most 30 samples, and they are exactly the 30 most
  recent sampled positions, oldest first: the push at the tail followed by the erase of
  the head is a strict FIFO. (Between the push and the erase, inside one call, the vector
  holds 31 entries; nothing else runs in between.)
\<close>

theorem trail_fifo_bounded:
  "length (trailSpheres (trail_calls calls
       ((Object_new p0 v0 m d)\<lparr>hasTrail := True\<rparr>))) \<le> 30 \<and>
   trailSpheres (trail_calls calls ((Object_new p0 v0 m d)\<lparr>hasTrail := True\<rparr>)) =
     lastn 30 (sampled calls)"
proof -
  let ?obj = "(Object_new p0 v0 m d)\<lparr>hasTrail := True\<rparr>"
  have "hasTrail ?obj" "maxTrailLength ?obj = 30" "trailSpheres ?obj = []"
    by (simp_all add: Object_new_def)
  with trail_calls_lastn [of ?obj calls]
  have "trailSpheres (trail_calls calls ?obj) = lastn 30 (sampled calls)" by simp
  then show ?thesis by (simp add: length_lastn)
qed

section \<open>Properties of the curvature grid\<close>

lemma displace_entries:
  "3 dvd length vs \<Longrightarrow>
     \<exists>out. displace vs objs = Some out \<and> length out = length vs \<and>
           (\<forall>i < length vs. i mod 3 \<noteq> 1 \<longrightarrow> out ! i = Some (vs ! i))"
proof (induction vs objs rule: displace.induct)
  case (1 objs)
  then show ?case by simp
next
  case (2 x y z rest objs)
  have "length (x # y # z # rest) = 3 + length rest" by simp
  with "2.prems" have "3 dvd length rest" by (simp only: dvd_add_triv_left_iff)
  with "2.IH" obtain out where out: "displace rest objs = Some out" "length out = length rest"
    "\<forall>i < length rest. i mod 3 \<noteq> 1 \<longrightarrow> out ! i = Some (rest ! i)" by blast
  let ?y = "map_option (\<lambda>t. (y + t) / 15.0 - 3000.0)
              (totalDisplacement (Vec3 x y z) objs (Some 0))"
  have res: "displace (x # y # z # rest) objs = Some (Some x # ?y # Some z # out)"
    using out(1) by simp
  have "(Some x # ?y # Some z # out) ! i = Some ((x # y # z # rest) ! i)"
    if "i < length (x # y # z # rest)" "i mod 3 \<noteq> 1" for i
  proof (cases "i < 3")
    case True
    then consider "i = 0" | "i = 1" | "i = 2" by linarith
    then show ?thesis using that by cases simp_all
  next
    case False
    then obtain k where k: "i = 3 + k" by (metis le_add_diff_inverse not_less)
    have "(3 + k) mod 3 = k mod 3" by simp
    with k that have "k < length rest" "k mod 3 \<noteq> 1" by auto
    with out(3) have "out ! k = Some (rest ! k)" by blast
    moreover have "(Some x # ?y # Some z # out) ! (3 + k) = out ! k"
      and "(x # y # z # rest) ! (3 + k) = rest ! k"
      by (simp_all add: numeral_3_eq_3)
    ultimately show ?thesis using k by simp
  qed
  then show ?case using res out(2) by simp
next
  case (3 x objs)
  then show ?case by simp
next
  case (4 x y objs)
  have "length [x, y] = 2" by simp
  with 4 have "(3::nat) dvd 2" by (simp only:)
  then show ?case by simp
qed

lemma displace_first_y:
  assumes "3 dvd length rest"
  shows "displace (x # y # z # rest) objs \<noteq> None \<and>
         the (displace (x # y # z # rest) objs) ! 1 =
           map_option (\<lambda>t. (y + t) / 15.0 - 3000.0)
             (totalDisplacement (Vec3 x y z) objs (Some 0))"
proof -
  from displace_entries [OF assms, of objs] obtain out where "displace rest objs = Some out"
    by blast
  then show ?thesis by simp
qed

lemma concat_dvd:
  "(\<And>xs. xs \<in> set xss \<Longrightarrow> (3::nat) dvd length xs) \<Longrightarrow> 3 dvd length (concat xss)"
  by (induction xss) auto

lemma three_dvd_six: "(3::nat) dvd Suc (Suc (Suc (Suc (Suc (Suc 0)))))"
  by (rule dvdI [where k = 2]) simp

lemma grid_vertices_dvd: "3 dvd length (grid_vertices gsize divisions)"
  unfolding grid_vertices_def Let_def length_append
  by (intro dvd_add concat_dvd) (auto intro!: concat_dvd simp add: three_dvd_six)

lemma grid_vertices_first:
  assumes "0 < divisions"
  shows "\<exists>rest. grid_vertices gsize divisions =
           - (gsize / 2) # (- (gsize / 2) * 0.3 + 3 * (gsize / of_int divisions))
             # - (gsize / 2) # rest"
proof -
  have a: "[0..divisions] = 0 # [1..divisions]" using assms by (simp add: upto_rec1)
  have b: "[0..divisions - 1] = 0 # [1..divisions - 1]" using assms by (simp add: upto_rec1)
  show ?thesis
    unfolding grid_vertices_def Let_def a b by simp
qed

lemma vlength_zero: "vlength 0 0 0 = 0"
  by (simp add: vlength_def)

lemma totalDisplacement_None: "totalDisplacement p objs None = None"
  by (induction objs) (simp_all add: fadd_def)

lemma totalDisplacement_nan:
  "obj \<in> set objs \<Longrightarrow> well_depth p obj = None \<Longrightarrow> totalDisplacement p objs sofar = None"
proof (induction objs arbitrary: sofar)
  case Nil
  then show ?case by simp
next
  case (Cons a objs)
  show ?case
  proof (cases "well_depth p a = None")
    case True
    then have "fadd sofar (well_depth p a) = None"
      by (simp add: fadd_def split: option.splits)
    then show ?thesis by (simp add: totalDisplacement_None)
  next
    case False
    with Cons.prems have "obj \<in> set objs" by auto
    with Cons show ?thesis by simp
  qed
qed

lemma vlength_x: "vlength dx 0 0 = \<bar>dx\<bar>"
  by (simp add: vlength_def)
lemma vlength_z: "vlength 0 0 dz = \<bar>dz\<bar>"
  by (simp add: vlength_def)

lemma corner_rs: "schwarzschild corner_body > 0"
  by (simp add: schwarzschild_def corner_body_def Object_new_def G_def c_def)

lemma corner_pos: "position corner_body = Vec3 (- 5000) (- 900) (- 5000)"
  by (simp add: corner_body_def Object_new_def)

text \<open>
  C10. The grid that \<open>CreateGridVertices\<close> returns has as many floats as the undisplaced
  grid, and every float that is not the second of its triple (every x- and every
  z-coordinate) is the undisplaced value, whatever the bodies are: the displacement pass
  writes \<open>vertices[i+1]\<close> only.
\<close>

theorem grid_xz_untouched:
  "\<exists>out. CreateGridVertices gsize divisions objs = Some out \<and>
         length out = length (grid_vertices gsize divisions) \<and>
         (\<forall>i < length out. i mod 3 \<noteq> 1 \<longrightarrow>
            out ! i = Some (grid_vertices gsize divisions ! i))"
  using displace_entries [OF grid_vertices_dvd, of gsize divisions objs]
  by (auto simp add: CreateGridVertices_def)

theorem grid_xz_untouched_witness:
  "CreateGridVertices 2 1 [corner_body] \<noteq> None \<and>
   (2::nat) < length (the (CreateGridVertices 2 1 [corner_body])) \<and>
   (2::nat) mod 3 \<noteq> 1 \<and>
   the (CreateGridVertices 2 1 [corner_body]) ! 0 = Some (- 1) \<and>
   the (CreateGridVertices 2 1 [corner_body]) ! 2 = Some (- 1)"
proof -
  have len: "length (grid_vertices 2 1) = 24"
    and v0: "grid_vertices 2 1 ! 0 = - 1" and v2: "grid_vertices 2 1 ! 2 = - 1"
    by (simp_all add: grid_vertices_def upto.simps Let_def)
  from grid_xz_untouched [of 2 1 "[corner_body]"] obtain out
    where out: "CreateGridVertices 2 1 [corner_body] = Some out"
      "length out = length (grid_vertices 2 1)"
      "\<forall>i < length out. i mod 3 \<noteq> 1 \<longrightarrow> out ! i = Some (grid_vertices 2 1 ! i)"
    by blast
  from out(2) len have l: "length out = 24" by simp
  from out(3) l have "out ! 0 = Some (grid_vertices 2 1 ! 0)"
    and "out ! 2 = Some (grid_vertices 2 1 ! 2)" by simp_all
  with out(1) l v0 v2 show ?thesis by simp
qed

text \<open>
  C3, as the code has it. Nothing clamps the contribution of a body. With \<open>rs\<close> the
  Schwarzschild radius (not negative) and \<open>r_m\<close> the distance in metres: for
  \<open>r_m \<ge> rs\<close> the contribution is \<open>2 * sqrt (rs * (r_m - rs)) * 100\<close>, which is zero
  at \<open>r_m = rs\<close>; for \<open>r_m < rs\<close> with \<open>rs > 0\<close> the square root is taken of a
  negative number, the contribution is NaN, and so is the accumulated displacement of the
  sample as soon as one such body is in the set.
\<close>

theorem well_depth_unclamped:
  "(0 \<le> schwarzschild obj \<and> schwarzschild obj \<le> distance_m p obj \<longrightarrow>
      well_depth p obj =
        Some (2 * sqrt (schwarzschild obj * (distance_m p obj - schwarzschild obj)) * 100)) \<and>
   (distance_m p obj = schwarzschild obj \<longrightarrow> well_depth p obj = Some 0) \<and>
   (0 < schwarzschild obj \<and> distance_m p obj < schwarzschild obj \<longrightarrow>
      well_depth p obj = None \<and>
      (obj \<in> set objs \<longrightarrow> totalDisplacement p objs (Some 0) = None))"
proof (intro conjI impI)
  assume "0 \<le> schwarzschild obj \<and> schwarzschild obj \<le> distance_m p obj"
  then have "0 \<le> schwarzschild obj * (distance_m p obj - schwarzschild obj)" by simp
  then show "well_depth p obj =
        Some (2 * sqrt (schwarzschild obj * (distance_m p obj - schwarzschild obj)) * 100)"
    by (simp add: well_depth_def c_sqrt_def)
next
  assume "distance_m p obj = schwarzschild obj"
  then show "well_depth p obj = Some 0" by (simp add: well_depth_def c_sqrt_def)
next
  assume a: "0 < schwarzschild obj \<and> distance_m p obj < schwarzschild obj"
  then have "schwarzschild obj * (distance_m p obj - schwarzschild obj) < 0"
    by (simp add: mult_pos_neg)
  then show n: "well_depth p obj = None" by (simp add: well_depth_def c_sqrt_def)
  assume "obj \<in> set objs"
  then show "totalDisplacement p objs (Some 0) = None" using n by (rule totalDisplacement_nan)
qed

text \<open>
  A body of the Sun's mass resting on the first vertex of the grid of \<open>main\<close> is at
  distance zero from that sample, inside its own Schwarzschild radius (about three
  kilometres): its contribution is NaN, not zero, and the y-coordinate of that vertex in
  the returned grid is NaN.
\<close>

theorem well_depth_inside_counterexample:
  "distance_m (Vec3 (- 5000) (- 900) (- 5000)) corner_body \<le> schwarzschild corner_body \<and>
   well_depth (Vec3 (- 5000) (- 900) (- 5000)) corner_body \<noteq> Some 0 \<and>
   CreateGridVertices 10000 50 [corner_body] \<noteq> None \<and>
   the (CreateGridVertices 10000 50 [corner_body]) ! 1 = None"
proof -
  let ?p = "Vec3 (- 5000) (- 900) (- 5000)"
  have d: "distance_m ?p corner_body = 0"
    by (simp add: distance_m_def corner_pos vlength_zero)
  have w: "well_depth ?p corner_body = None"
    using corner_rs d by (simp add: well_depth_def c_sqrt_def mult_pos_neg)
  obtain rest where g: "grid_vertices 10000 50 = - 5000 # - 900 # - 5000 # rest"
    using grid_vertices_first [of 50 10000] by auto
  have "length (grid_vertices 10000 50) = 3 + length rest" by (simp add: g)
  with grid_vertices_dvd [of 10000 50] have r: "3 dvd length rest"
    by (simp only: dvd_add_triv_left_iff)
  have t: "totalDisplacement ?p [corner_body] (Some 0) = None"
    using w by (simp add: fadd_def)
  from displace_first_y [OF r, of "- 5000" "- 900" "- 5000" "[corner_body]"] t g
  have "CreateGridVertices 10000 50 [corner_body] \<noteq> None"
    and "the (CreateGridVertices 10000 50 [corner_body]) ! 1 = None"
    by (simp_all add: CreateGridVertices_def)
  with d w corner_rs show ?thesis by simp
qed

text \<open>
  The three cases at samples a thousand units away from the body, exactly on its
  Schwarzschild radius, and at its centre.
\<close>

theorem well_depth_unclamped_witness:
  "(0 \<le> schwarzschild corner_body \<and>
    schwarzschild corner_body \<le> distance_m (Vec3 (- 5000) (- 900) (- 4000)) corner_body \<and>
    well_depth (Vec3 (- 5000) (- 900) (- 4000)) corner_body =
      Some (2 * sqrt (schwarzschild corner_body * (1000000 - schwarzschild corner_body)) * 100)) \<and>
   (distance_m (Vec3 (- 5000 + schwarzschild corner_body / 1000) (- 900) (- 5000)) corner_body =
      schwarzschild corner_body \<and>
    well_depth (Vec3 (- 5000 + schwarzschild corner_body / 1000) (- 900) (- 5000)) corner_body =
      Some 0) \<and>
   (0 < schwarzschild corner_body \<and>
    distance_m (Vec3 (- 5000) (- 900) (- 5000)) corner_body < schwarzschild corner_body \<and>
    corner_body \<in> set [corner_body] \<and>
    well_depth (Vec3 (- 5000) (- 900) (- 5000)) corner_body = None \<and>
    totalDisplacement (Vec3 (- 5000) (- 900) (- 5000)) [corner_body] (Some 0) = None)"
proof -
  have rs: "0 < schwarzschild corner_body" by (rule corner_rs)
  have small: "schwarzschild corner_body \<le> 1000000"
    by (simp add: schwarzschild_def corner_body_def Object_new_def G_def c_def)
  have far: "distance_m (Vec3 (- 5000) (- 900) (- 4000)) corner_body = 1000000"
    by (simp add: distance_m_def corner_pos vlength_z)
  have on: "distance_m (Vec3 (- 5000 + schwarzschild corner_body / 1000) (- 900) (- 5000))
              corner_body = schwarzschild corner_body"
    using rs by (simp add: distance_m_def corner_pos vlength_x)
  have at: "distance_m (Vec3 (- 5000) (- 900) (- 5000)) corner_body = 0"
    by (simp add: distance_m_def corner_pos vlength_zero)
  note a = well_depth_unclamped [of corner_body "Vec3 (- 5000) (- 900) (- 4000)" "[]"]
  note b = well_depth_unclamped
    [of corner_body "Vec3 (- 5000 + schwarzschild corner_body / 1000) (- 900) (- 5000)" "[]"]
  note c' = well_depth_unclamped [of corner_body "Vec3 (- 5000) (- 900) (- 5000)" "[corner_body]"]
  show ?thesis using a b c' rs small far on at by (simp add: fadd_def)
qed

section \<open>Properties of the tick\<close>

lemma interact_frame:
  "interact pause s obj obj2 = obj\<lparr>velocity := velocity (interact pause s obj obj2)\<rparr>"
  by (simp add: interact_def accelerate_def Let_def)

lemma pair_loop_frame:
  "pair_loop pause s i j others obj = obj\<lparr>velocity := velocity (pair_loop pause s i j others obj)\<rparr>"
proof (induction others arbitrary: j obj)
  case Nil
  then show ?case by simp
next
  case (Cons obj2 rest)
  show ?case
  proof (cases "j = i")
    case True
    then show ?thesis using Cons [of "Suc j" obj] by simp
  next
    case False
    let ?o = "interact pause s obj obj2"
    have "pair_loop pause s i (Suc j) rest ?o =
            ?o\<lparr>velocity := velocity (pair_loop pause s i (Suc j) rest ?o)\<rparr>"
      by (rule Cons)
    also have "\<dots> = obj\<lparr>velocity := velocity (pair_loop pause s i (Suc j) rest ?o)\<rparr>"
      by (subst interact_frame) simp
    finally show ?thesis using False by simp
  qed
qed

lemma pair_loop_fields:
  "position (pair_loop pause s i j others obj) = position obj"
  "mass (pair_loop pause s i j others obj) = mass obj"
  "density (pair_loop pause s i j others obj) = density obj"
  "radius (pair_loop pause s i j others obj) = radius obj"
  "Initalizing (pair_loop pause s i j others obj) = Initalizing obj"
  "Launched (pair_loop pause s i j others obj) = Launched obj"
  "hasTrail (pair_loop pause s i j others obj) = hasTrail obj"
  "maxTrailLength (pair_loop pause s i j others obj) = maxTrailLength obj"
  "trailSpheres (pair_loop pause s i j others obj) = trailSpheres obj"
  by (subst pair_loop_frame, simp)+

lemma UpdateTrail_fields:
  "position (fst (UpdateTrail obj fc)) = position obj"
  "velocity (fst (UpdateTrail obj fc)) = velocity obj"
  "mass (fst (UpdateTrail obj fc)) = mass obj"
  "density (fst (UpdateTrail obj fc)) = density obj"
  "radius (fst (UpdateTrail obj fc)) = radius obj"
  "Initalizing (fst (UpdateTrail obj fc)) = Initalizing obj"
  "Launched (fst (UpdateTrail obj fc)) = Launched obj"
  "hasTrail (fst (UpdateTrail obj fc)) = hasTrail obj"
  "maxTrailLength (fst (UpdateTrail obj fc)) = maxTrailLength obj"
  by (simp_all add: UpdateTrail_def Let_def)

lemma UpdateTrail_counter: "snd (UpdateTrail obj fc) = (if hasTrail obj then fc + 1 else fc)"
  by (simp add: UpdateTrail_def Let_def)

lemma UpdatePos_fields:
  "velocity (fst (UpdatePos s obj fc)) = velocity obj"
  "mass (fst (UpdatePos s obj fc)) = mass obj"
  "density (fst (UpdatePos s obj fc)) = density obj"
  "radius (fst (UpdatePos s obj fc)) = sphere_radius (mass obj) (density obj)"
  "Initalizing (fst (UpdatePos s obj fc)) = Initalizing obj"
  "Launched (fst (UpdatePos s obj fc)) = Launched obj"
  "hasTrail (fst (UpdatePos s obj fc)) = hasTrail obj"
  "maxTrailLength (fst (UpdatePos s obj fc)) = maxTrailLength obj"
  by (simp_all add: UpdatePos_def Let_def UpdateTrail_fields)

lemma UpdatePos_counter: "snd (UpdatePos s obj fc) = (if hasTrail obj then fc + 1 else fc)"
  by (simp add: UpdatePos_def Let_def UpdateTrail_counter)

lemma process_body_fields:
  "mass (fst (process_body pause s others obj i fc)) = mass obj"
  "density (fst (process_body pause s others obj i fc)) = density obj"
  "Initalizing (fst (process_body pause s others obj i fc)) = Initalizing obj"
  "Launched (fst (process_body pause s others obj i fc)) = Launched obj"
  "hasTrail (fst (process_body pause s others obj i fc)) = hasTrail obj"
  "maxTrailLength (fst (process_body pause s others obj i fc)) = maxTrailLength obj"
  by (simp_all add: process_body_def Let_def UpdatePos_fields pair_loop_fields)

lemma process_body_counter:
  "snd (process_body pause s others obj i fc) = fc + trail_count pause [obj]"
  by (simp add: process_body_def Let_def UpdatePos_counter pair_loop_fields trail_count_def)

lemma process_body_paused_position:
  "position (fst (process_body True s others obj i fc)) = position obj"
  by (simp add: process_body_def Let_def pair_loop_fields)

lemma tick_loop_length: "length (fst (tick_loop pause s i objs fc)) = length objs"
proof (induction pause s i objs fc rule: tick_loop.induct)
  case (1 pause s i objs fc)
  show ?case
  proof (cases "i < length objs")
    case True
    obtain obj' fc' where pb: "process_body pause s objs (objs ! i) i fc = (obj', fc')"
      by (cases "process_body pause s objs (objs ! i) i fc")
    from "1" [OF True pb [symmetric]] True pb show ?thesis
      by (simp add: tick_loop.simps [of pause s i objs fc])
  next
    case False
    then show ?thesis by (simp add: tick_loop.simps [of pause s i objs fc])
  qed
qed

lemma tick_loop_prefix: "j < i \<Longrightarrow> fst (tick_loop pause s i objs fc) ! j = objs ! j"
proof (induction pause s i objs fc rule: tick_loop.induct)
  case (1 pause s i objs fc)
  show ?case
  proof (cases "i < length objs")
    case True
    obtain obj' fc' where pb: "process_body pause s objs (objs ! i) i fc = (obj', fc')"
      by (cases "process_body pause s objs (objs ! i) i fc")
    from "1.prems" have "j < Suc i" "j \<noteq> i" by simp_all
    with "1.IH" [OF True pb [symmetric]] True pb show ?thesis
      by (simp add: tick_loop.simps [of pause s i objs fc])
  next
    case False
    then show ?thesis by (simp add: tick_loop.simps [of pause s i objs fc])
  qed
qed

lemma tick_loop_map:
  assumes "\<And>others obj i fc. f (fst (process_body pause s others obj i fc)) = f obj"
  shows "map f (fst (tick_loop pause s i objs fc)) = map f objs"
  using assms
proof (induction pause s i objs fc rule: tick_loop.induct)
  case (1 pause s i objs fc)
  show ?case
  proof (cases "i < length objs")
    case True
    obtain obj' fc' where pb: "process_body pause s objs (objs ! i) i fc = (obj', fc')"
      by (cases "process_body pause s objs (objs ! i) i fc")
    have "f obj' = f (objs ! i)" using "1.prems" [of objs "objs ! i" i fc] pb by simp
    then have "map f (objs[i := obj']) = map f objs"
      by (simp add: map_update list_update_same_conv True)
    with "1.IH" [OF True pb [symmetric] "1.prems"] True pb show ?thesis
      by (simp add: tick_loop.simps [of pause s i objs fc])
  next
    case False
    then show ?thesis by (simp add: tick_loop.simps [of pause s i objs fc])
  qed
qed

lemma tick_loop_counter:
  "snd (tick_loop pause s i objs fc) = fc + trail_count pause (drop i objs)"
proof (induction pause s i objs fc rule: tick_loop.induct)
  case (1 pause s i objs fc)
  show ?case
  proof (cases "i < length objs")
    case True
    obtain obj' fc' where pb: "process_body pause s objs (objs ! i) i fc = (obj', fc')"
      by (cases "process_body pause s objs (objs ! i) i fc")
    have fc': "fc' = fc + trail_count pause [objs ! i]"
      using process_body_counter [of pause s objs "objs ! i" i fc] pb by simp
    have "drop i objs = objs ! i # drop (Suc i) objs"
      using True by (simp add: Cons_nth_drop_Suc)
    then have "trail_count pause (drop i objs) =
                 trail_count pause [objs ! i] + trail_count pause (drop (Suc i) objs)"
      by (simp add: trail_count_def)
    with "1.IH" [OF True pb [symmetric]] True pb fc' show ?thesis
      by (simp add: tick_loop.simps [of pause s i objs fc])
  next
    case False
    then show ?thesis by (simp add: tick_loop.simps [of pause s i objs fc] trail_count_def)
  qed
qed

lemma trail_count_Nil: "trail_count pause [] = 0"
  by (simp add: trail_count_def)

lemma trail_count_Cons:
  "trail_count pause (obj # objs) = trail_count pause [obj] + trail_count pause objs"
  by (simp add: trail_count_def)

lemma tick_loop_nth:
  "i \<le> j \<Longrightarrow> j < length objs \<Longrightarrow>
   fst (tick_loop pause s i objs fc) ! j =
     fst (process_body pause s (take j (fst (tick_loop pause s i objs fc)) @ drop j objs)
            (objs ! j) j (fc + trail_count pause (take (j - i) (drop i objs))))"
proof (induction pause s i objs fc rule: tick_loop.induct)
  case (1 pause s i objs fc)
  from "1.prems" have True: "i < length objs" by simp
  obtain obj' fc' where pb: "process_body pause s objs (objs ! i) i fc = (obj', fc')"
    by (cases "process_body pause s objs (objs ! i) i fc")
  let ?objs1 = "objs[i := obj']"
  let ?res = "fst (tick_loop pause s (Suc i) ?objs1 fc')"
  have unfold: "fst (tick_loop pause s i objs fc) = ?res"
    using True pb by (simp add: tick_loop.simps [of pause s i objs fc])
  show ?case
  proof (cases "j = i")
    case same: True
    have "?res ! i = ?objs1 ! i" by (rule tick_loop_prefix) simp
    then have lhs: "?res ! i = obj'" using True by simp
    have pfx: "?res ! k = objs ! k" if "k < i" for k
    proof -
      have "?res ! k = ?objs1 ! k" using that by (intro tick_loop_prefix) simp
      then show ?thesis using that by simp
    qed
    have "take i ?res = take i objs"
      using True pfx by (intro nth_take_lemma) (auto simp add: tick_loop_length)
    then have "take i ?res @ drop i objs = objs"
      by (metis append_take_drop_id)
    then show ?thesis using lhs pb same unfold by (simp add: trail_count_Nil)
  next
    case False
    with "1.prems" have lt: "Suc i \<le> j" "j < length ?objs1" "i < j" by simp_all
    have fc': "fc' = fc + trail_count pause [objs ! i]"
      using process_body_counter [of pause s objs "objs ! i" i fc] pb by simp
    have d: "drop i objs = objs ! i # drop (Suc i) objs"
      using True by (simp add: Cons_nth_drop_Suc)
    have "take (j - i) (drop i objs) = objs ! i # take (j - Suc i) (drop (Suc i) objs)"
      using lt(3) by (subst d) (simp add: take_Cons' )
    moreover have "trail_count pause (objs ! i # take (j - Suc i) (drop (Suc i) objs)) =
        trail_count pause [objs ! i] + trail_count pause (take (j - Suc i) (drop (Suc i) objs))"
      by (rule trail_count_Cons)
    moreover have "drop (Suc i) ?objs1 = drop (Suc i) objs" by simp
    ultimately have cnt: "fc + trail_count pause (take (j - i) (drop i objs)) =
                 fc' + trail_count pause (take (j - Suc i) (drop (Suc i) ?objs1))"
      using fc' by simp
    have "drop j ?objs1 = drop j objs" using lt(3) by simp
    moreover have "?objs1 ! j = objs ! j" using lt(3) by simp
    ultimately show ?thesis
      using "1.IH" [OF True pb [symmetric] lt(1) lt(2)] unfold cnt by simp
  qed
qed

lemma snapshot_loop_length: "length (fst (snapshot_loop pause s snap i objs fc)) = length objs"
proof (induction pause s snap i objs fc rule: snapshot_loop.induct)
  case (1 pause s snap i objs fc)
  show ?case
  proof (cases "i < length objs")
    case True
    obtain obj' fc' where pb: "process_body pause s snap (objs ! i) i fc = (obj', fc')"
      by (cases "process_body pause s snap (objs ! i) i fc")
    from "1" [OF True pb [symmetric]] True pb show ?thesis
      by (simp add: snapshot_loop.simps [of pause s snap i objs fc])
  next
    case False
    then show ?thesis by (simp add: snapshot_loop.simps [of pause s snap i objs fc])
  qed
qed

lemma snapshot_loop_prefix:
  "j < i \<Longrightarrow> fst (snapshot_loop pause s snap i objs fc) ! j = objs ! j"
proof (induction pause s snap i objs fc rule: snapshot_loop.induct)
  case (1 pause s snap i objs fc)
  show ?case
  proof (cases "i < length objs")
    case True
    obtain obj' fc' where pb: "process_body pause s snap (objs ! i) i fc = (obj', fc')"
      by (cases "process_body pause s snap (objs ! i) i fc")
    from "1.prems" have "j < Suc i" "j \<noteq> i" by simp_all
    with "1.IH" [OF True pb [symmetric]] True pb show ?thesis
      by (simp add: snapshot_loop.simps [of pause s snap i objs fc])
  next
    case False
    then show ?thesis by (simp add: snapshot_loop.simps [of pause s snap i objs fc])
  qed
qed

lemma snapshot_loop_nth:
  "i \<le> j \<Longrightarrow> j < length objs \<Longrightarrow>
   fst (snapshot_loop pause s snap i objs fc) ! j =
     fst (process_body pause s snap (objs ! j) j
            (fc + trail_count pause (take (j - i) (drop i objs))))"
proof (induction pause s snap i objs fc rule: snapshot_loop.induct)
  case (1 pause s snap i objs fc)
  from "1.prems" have True: "i < length objs" by simp
  obtain obj' fc' where pb: "process_body pause s snap (objs ! i) i fc = (obj', fc')"
    by (cases "process_body pause s snap (objs ! i) i fc")
  let ?objs1 = "objs[i := obj']"
  let ?res = "fst (snapshot_loop pause s snap (Suc i) ?objs1 fc')"
  have unfold: "fst (snapshot_loop pause s snap i objs fc) = ?res"
    using True pb by (simp add: snapshot_loop.simps [of pause s snap i objs fc])
  show ?case
  proof (cases "j = i")
    case same: True
    have "?res ! i = ?objs1 ! i" by (rule snapshot_loop_prefix) simp
    then have lhs: "?res ! i = obj'" using True by simp
    then show ?thesis using pb same unfold by (simp add: trail_count_Nil)
  next
    case False
    with "1.prems" have lt: "Suc i \<le> j" "j < length ?objs1" "i < j" by simp_all
    have fc': "fc' = fc + trail_count pause [objs ! i]"
      using process_body_counter [of pause s snap "objs ! i" i fc] pb by simp
    have d: "drop i objs = objs ! i # drop (Suc i) objs"
      using True by (simp add: Cons_nth_drop_Suc)
    have "take (j - i) (drop i objs) = objs ! i # take (j - Suc i) (drop (Suc i) objs)"
      using lt(3) by (subst d) (simp add: take_Cons' )
    moreover have "trail_count pause (objs ! i # take (j - Suc i) (drop (Suc i) objs)) =
        trail_count pause [objs ! i] + trail_count pause (take (j - Suc i) (drop (Suc i) objs))"
      by (rule trail_count_Cons)
    moreover have "drop (Suc i) ?objs1 = drop (Suc i) objs" by simp
    ultimately have cnt: "fc + trail_count pause (take (j - i) (drop i objs)) =
                 fc' + trail_count pause (take (j - Suc i) (drop (Suc i) ?objs1))"
      using fc' by simp
    have "?objs1 ! j = objs ! j" using lt(3) by simp
    then show ?thesis
      using "1.IH" [OF True pb [symmetric] lt(1) lt(2)] unfold cnt by simp
  qed
qed

lemma cube_root_powr: "0 \<le> (x::real) \<Longrightarrow> (x ^ 3) powr (1 / 3) = x"
proof (cases "x = 0")
  case True then show ?thesis by simp
next
  case False
  assume "0 \<le> x"
  with False have "0 < x" by simp
  then have "x ^ 3 = x powr 3" by (simp add: powr_numeral)
  then have "(x ^ 3) powr (1 / 3) = (x powr 3) powr (1 / 3)" by (simp only:)
  also have "\<dots> = x powr (3 * (1 / 3))" by (rule powr_powr)
  also have "\<dots> = x" using \<open>0 < x\<close> by simp
  finally show ?thesis .
qed

lemma sphere_radius_unit: "sphere_radius 12566370614360000 3 = 1"
proof -
  have "(3 * 12566370614360000 / 3) / (4 * 3.14159265359) = (100000::real) ^ 3" by simp
  then have "sphere_radius 12566370614360000 3 = ((100000::real) ^ 3) powr (1 / 3) / 100000"
    unfolding sphere_radius_def by (simp only:)
  also have "\<dots> = 1" by (subst cube_root_powr) simp_all
  finally show ?thesis .
qed

lemmas run_defs = tick_def snapshot_tick_def tick_loop.simps snapshot_loop.simps process_body_def
  interact_def gravity_acc_def accelerate_def CheckCollision_def UpdatePos_def UpdateTrail_def
  vscale_def Let_def G_def Object_new_def vlength_x sphere_radius_unit

lemma paused_tick_positions:
  "map position (fst (tick True s objs fc)) = map position objs"
  unfolding tick_def by (rule tick_loop_map) (rule process_body_paused_position)

lemma vlength_neg: "vlength (- a) (- b) (- d) = vlength a b d"
  by (simp add: vlength_def)

lemma vlength_swap: "vlength (a' - a) (b' - b) (d' - d) = vlength (a - a') (b - b') (d - d')"
  using vlength_neg [of "a - a'" "b - b'" "d - d'"] by simp

lemma vlength_scale: "vlength (a * k) (b * k) (d * k) = vlength a b d * \<bar>k\<bar>"
proof -
  have "a * k * (a * k) + b * k * (b * k) + d * k * (d * k) = (a * a + b * b + d * d) * (k * k)"
    by (simp add: algebra_simps)
  then show ?thesis by (simp add: vlength_def real_sqrt_mult)
qed

lemma tick_first_body_snapshot:
  "objs \<noteq> [] \<Longrightarrow> fst (tick pause s objs fc) ! 0 = fst (snapshot_tick pause s objs fc) ! 0"
  using tick_loop_nth [of 0 0 objs pause s fc] snapshot_loop_nth [of 0 0 objs pause s objs fc]
  by (simp add: tick_def snapshot_tick_def)

text \<open>
  C1, as the code has it. The bodies are processed in vector order and each one is
  integrated before the next one is computed: the update of the body at index \<open>j\<close>
  reads a vector whose entries below \<open>j\<close> are the bodies as this tick has already left
  them and whose entries from \<open>j\<close> on are the bodies as they were when the tick began.
  The compute-then-apply reference reads the vector of the beginning for every body; the
  counter passed on is the same in both. The two agree on the first body
  (\<open>tick_first_body_snapshot\<close>).
\<close>

theorem tick_reads_updated_prefix:
  "j < length objs \<longrightarrow>
     fst (tick pause s objs fc) ! j =
       fst (process_body pause s (take j (fst (tick pause s objs fc)) @ drop j objs)
              (objs ! j) j (fc + trail_count pause (take j objs))) \<and>
     fst (snapshot_tick pause s objs fc) ! j =
       fst (process_body pause s objs (objs ! j) j (fc + trail_count pause (take j objs)))"
  using tick_loop_nth [of 0 j objs pause s fc] snapshot_loop_nth [of 0 j objs pause s objs fc]
  by (simp add: tick_def snapshot_tick_def)

theorem tick_reads_updated_prefix_witness:
  "(1::nat) < length pair_scene \<and>
   fst (tick False 1 pair_scene 0) ! 1 =
     fst (process_body False 1 (take 1 (fst (tick False 1 pair_scene 0)) @ drop 1 pair_scene)
            (pair_scene ! 1) 1 (0 + trail_count False (take 1 pair_scene))) \<and>
   fst (snapshot_tick False 1 pair_scene 0) ! 1 =
     fst (process_body False 1 pair_scene (pair_scene ! 1) 1
            (0 + trail_count False (take 1 pair_scene)))"
proof -
  have h: "(1::nat) < length pair_scene" by (simp add: pair_scene_def)
  from tick_reads_updated_prefix [of 1 pair_scene False 1 0] h show ?thesis by blast
qed

text \<open>
  On two bodies ten units apart the tick and the reference differ: the first body has
  moved by one unit when the second computes its pull, so the second is accelerated from
  a distance of nine units, not ten.
\<close>

theorem snapshot_counterexample:
  "tick False 1 pair_scene 0 \<noteq> snapshot_tick False 1 pair_scene 0"
proof
  assume "tick False 1 pair_scene 0 = snapshot_tick False 1 pair_scene 0"
  then have "velocity (fst (tick False 1 pair_scene 0) ! 1) =
             velocity (fst (snapshot_tick False 1 pair_scene 0) ! 1)" by simp
  then show False by (simp add: pair_scene_def run_defs)
qed

text \<open>
  C4, as the code has it. For a pair of launched bodies at a distance above zero the
  velocity of the first, after the acceleration of the pair (when not paused), is scaled
  by \<open>- 0.2\<close> if the radii add up to more than the distance and by \<open>1.0\<close> otherwise,
  so two bodies that touch exactly are not damped. A pair at distance zero is skipped by
  the guard \<open>distance > 0\<close>: the body is left as it is, whatever the radii.
\<close>

theorem collision_factor_gated:
  "(\<not> Initalizing obj \<and> \<not> Initalizing obj2 \<and> 0 < separation obj obj2 \<longrightarrow>
      velocity (interact pause s obj obj2) =
        vscale (if radius obj + radius obj2 > separation obj obj2 then - 0.2 else 1.0)
          (velocity (if pause then obj else accelerate s (gravity_acc obj obj2) obj))) \<and>
   (separation obj obj2 = 0 \<longrightarrow> interact pause s obj obj2 = obj)"
  by (simp add: interact_def separation_def CheckCollision_def accelerate_def Let_def add.commute)

theorem collision_factor_gated_witness:
  "(\<not> Initalizing (overlap_scene ! 0) \<and> \<not> Initalizing (overlap_scene ! 1) \<and>
    0 < separation (overlap_scene ! 0) (overlap_scene ! 1) \<and>
    velocity (interact True 1 (overlap_scene ! 0) (overlap_scene ! 1)) = Vec3 (- 0.2) 0 0) \<and>
   (separation (coincident_scene ! 0) (coincident_scene ! 1) = 0 \<and>
    interact True 1 (coincident_scene ! 0) (coincident_scene ! 1) = coincident_scene ! 0)"
  using collision_factor_gated [of "overlap_scene ! 0" "overlap_scene ! 1" True 1]
    collision_factor_gated [of "coincident_scene ! 0" "coincident_scene ! 1" True 1]
  by (simp add: overlap_scene_def coincident_scene_def separation_def vlength_zero vlength_x
      Object_new_def sphere_radius_unit vscale_def)

text \<open>
  Two bodies of radius 1 at the same place overlap, yet the velocity of the first is not
  scaled by \<open>- 0.2\<close>: neither by the pair step nor by a whole tick.
\<close>

theorem collision_at_distance_zero_counterexample:
  "\<not> Initalizing (coincident_scene ! 0) \<and> \<not> Initalizing (coincident_scene ! 1) \<and>
   radius (coincident_scene ! 0) + radius (coincident_scene ! 1) >
     separation (coincident_scene ! 0) (coincident_scene ! 1) \<and>
   velocity (interact True 1 (coincident_scene ! 0) (coincident_scene ! 1)) = Vec3 1 0 0 \<and>
   velocity (fst (tick True 1 coincident_scene 0) ! 0) = Vec3 1 0 0 \<and>
   vscale (- 0.2) (velocity (coincident_scene ! 0)) = Vec3 (- 0.2) 0 0"
  by (simp add: coincident_scene_def run_defs separation_def vlength_zero)

text \<open>
  C2 on the code: a paused tick over two overlapping bodies multiplies the velocity of
  the first by \<open>- 0.2\<close>. The collision factor is applied outside the \<open>if(!pause)\<close>
  that guards \<open>accelerate\<close>; only the positions are frozen (\<open>paused_tick_positions\<close>).
\<close>

theorem paused_tick_scales_velocity:
  "velocity (overlap_scene ! 0) = Vec3 1 0 0 \<and>
   velocity (fst (tick True 1 overlap_scene 0) ! 0) = Vec3 (- 0.2) 0 0"
  by (simp add: overlap_scene_def run_defs)

text \<open>
  C5, as the code has it. For two bodies of positive mass at a distance above zero, the
  accelerations that the pair loop computes for each from the other, from the same two
  positions, are opposite (one is a negative multiple of the other) and satisfy
  \<open>mA * |aA| = mB * |aB|\<close>.
\<close>

theorem gravity_acc_third_law:
  "0 < mass A \<and> 0 < mass B \<and> 0 < separation A B \<longrightarrow>
     gravity_acc B A = vscale (- (mass A / mass B)) (gravity_acc A B) \<and>
     mass A * vnorm (gravity_acc A B) = mass B * vnorm (gravity_acc B A)"
proof (intro impI)
  assume a: "0 < mass A \<and> 0 < mass B \<and> 0 < separation A B"
  let ?dx = "vx (position B) - vx (position A)"
  let ?dy = "vy (position B) - vy (position A)"
  let ?dz = "vz (position B) - vz (position A)"
  have sw: "vlength (vx (position A) - vx (position B)) (vy (position A) - vy (position B))
              (vz (position A) - vz (position B)) = vlength ?dx ?dy ?dz"
    by (rule vlength_swap)
  define d where "d = vlength ?dx ?dy ?dz"
  define F where "F = (G * mass A * mass B) / (d * 1000 * (d * 1000))"
  have F': "(G * mass B * mass A) / (d * 1000 * (d * 1000)) = F"
    by (simp add: F_def mult.commute mult.left_commute)
  have gAB: "gravity_acc A B =
               Vec3 (?dx / d * (F / mass A)) (?dy / d * (F / mass A)) (?dz / d * (F / mass A))"
    by (simp add: gravity_acc_def Let_def d_def F_def)
  have gBA: "gravity_acc B A =
               Vec3 (- ?dx / d * (F / mass B)) (- ?dy / d * (F / mass B)) (- ?dz / d * (F / mass B))"
    unfolding gravity_acc_def Let_def sw d_def [symmetric] F' by simp
  have q: "F / mass A * (mass A / mass B) = F / mass B" using a by simp
  have comp: "- u / d * (F / mass B) = u / d * (F / mass A) * - (mass A / mass B)" for u
  proof -
    have "u / d * (F / mass A) * - (mass A / mass B) = - (u / d * (F / mass A * (mass A / mass B)))"
      by (simp only: mult_minus_right mult.assoc)
    then show ?thesis by (simp only: q)
  qed
  have opp: "gravity_acc B A = vscale (- (mass A / mass B)) (gravity_acc A B)"
    unfolding gAB gBA vscale_def by (simp only: vec3.sel comp)
  have "vnorm (gravity_acc B A) = vnorm (gravity_acc A B) * \<bar>- (mass A / mass B)\<bar>"
    unfolding opp by (simp only: vnorm_def vscale_def vec3.sel vlength_scale)
  also have "\<dots> = vnorm (gravity_acc A B) * (mass A / mass B)" using a by simp
  finally have "mass B * vnorm (gravity_acc B A) = mass A * vnorm (gravity_acc A B)"
    using a by simp
  with opp show "gravity_acc B A = vscale (- (mass A / mass B)) (gravity_acc A B) \<and>
     mass A * vnorm (gravity_acc A B) = mass B * vnorm (gravity_acc B A)" by simp
qed

theorem gravity_acc_third_law_witness:
  "0 < mass (pair_scene ! 0) \<and> 0 < mass (pair_scene ! 1) \<and>
   0 < separation (pair_scene ! 0) (pair_scene ! 1) \<and>
   gravity_acc (pair_scene ! 1) (pair_scene ! 0) =
     vscale (- (mass (pair_scene ! 0) / mass (pair_scene ! 1)))
       (gravity_acc (pair_scene ! 0) (pair_scene ! 1)) \<and>
   mass (pair_scene ! 0) * vnorm (gravity_acc (pair_scene ! 0) (pair_scene ! 1)) =
     mass (pair_scene ! 1) * vnorm (gravity_acc (pair_scene ! 1) (pair_scene ! 0))"
proof -
  have h: "0 < mass (pair_scene ! 0) \<and> 0 < mass (pair_scene ! 1) \<and>
           0 < separation (pair_scene ! 0) (pair_scene ! 1)"
    by (simp add: pair_scene_def Object_new_def separation_def vlength_x)
  from gravity_acc_third_law [of "pair_scene ! 0" "pair_scene ! 1"] h show ?thesis by blast
qed

text \<open>
  Within a tick the two accelerations of a pair are not computed from the same positions.
  On two bodies ten units apart the first is accelerated from the positions of the
  beginning, the second from the position the first has been moved to, and the products
  of mass and acceleration differ.
\<close>

theorem third_law_counterexample:
  "velocity (fst (tick False 1 pair_scene 0) ! 0) =
     velocity (accelerate 1 (gravity_acc (pair_scene ! 0) (pair_scene ! 1)) (pair_scene ! 0)) \<and>
   velocity (fst (tick False 1 pair_scene 0) ! 1) =
     velocity (accelerate 1 (gravity_acc (pair_scene ! 1) (fst (tick False 1 pair_scene 0) ! 0))
       (pair_scene ! 1)) \<and>
   mass (pair_scene ! 0) * vnorm (gravity_acc (pair_scene ! 0) (pair_scene ! 1)) \<noteq>
   mass (pair_scene ! 1) * vnorm (gravity_acc (pair_scene ! 1) (fst (tick False 1 pair_scene 0) ! 0))"
  by (simp add: pair_scene_def run_defs vnorm_def)

section \<open>Radius, trail cadence and growth\<close>

lemma process_body_radius_ok:
  "radius_ok obj \<or> \<not> pause \<Longrightarrow> radius_ok (fst (process_body pause s others obj i fc))"
  by (auto simp add: radius_ok_def process_body_def Let_def UpdatePos_fields pair_loop_fields)

lemma tick_radius_ok:
  assumes "list_all radius_ok objs \<or> \<not> pause"
  shows "list_all radius_ok (fst (tick pause s objs fc))"
proof -
  have "radius_ok (fst (tick pause s objs fc) ! j)" if "j < length objs" for j
  proof -
    have "radius_ok (objs ! j) \<or> \<not> pause"
      using assms that by (auto simp add: list_all_length)
    then show ?thesis
      unfolding tick_def tick_loop_nth [of 0 j objs pause s fc, OF le0 that]
      by (rule process_body_radius_ok)
  qed
  then show ?thesis by (simp add: list_all_length tick_def tick_loop_length)
qed

lemma sphere_radius_cbrt:
  assumes "0 < m" "0 < d"
  shows "sphere_radius m d = root 3 ((3 * m / d) / (4 * 3.14159265359)) / 100000"
proof -
  have "0 < (3 * m / d) / (4 * 3.14159265359)" using assms by simp
  then show ?thesis unfolding sphere_radius_def by (simp add: root_powr_inverse)
qed

lemma grow_last_radius_ok:
  "list_all radius_ok objs \<Longrightarrow> list_all radius_ok (grow_last pressed dt objs)"
  by (auto simp add: grow_last_def Let_def list_all_length nth_list_update radius_ok_def)

lemma mouse_press_radius_ok:
  "list_all radius_ok objs \<Longrightarrow> list_all radius_ok (mouse_press objs)"
  by (simp add: mouse_press_def radius_ok_def Object_new_def)

lemma mouse_release_radius_ok:
  "list_all radius_ok objs \<Longrightarrow> mouse_release objs = Some objs' \<Longrightarrow> list_all radius_ok objs'"
  by (auto simp add: mouse_release_def list_all_length nth_list_update radius_ok_def last_conv_nth
      split: if_splits)

lemma process_body_trail_size:
  assumes "hasTrail obj" "maxTrailLength obj = 30" "length (trailSpheres obj) < 30"
  shows "snd (process_body False s others obj i fc) = fc + 1 \<and>
         hasTrail (fst (process_body False s others obj i fc)) \<and>
         maxTrailLength (fst (process_body False s others obj i fc)) = 30 \<and>
         length (trailSpheres (fst (process_body False s others obj i fc))) =
           length (trailSpheres obj) + (if (fc + 1) mod 5 = 0 then 1 else 0)"
  using assms
  by (simp add: process_body_def Let_def UpdatePos_def UpdateTrail_def pair_loop_fields
      size_t_of_int_def)

lemma tick_length: "length (fst (tick pause s objs fc)) = length objs"
  by (simp add: tick_def tick_loop_length)

lemma tick_last:
  assumes "objs \<noteq> []"
  shows "mass (last (fst (tick pause s objs fc))) = mass (last objs)"
    and "density (last (fst (tick pause s objs fc))) = density (last objs)"
    and "Initalizing (last (fst (tick pause s objs fc))) = Initalizing (last objs)"
proof -
  have ne: "fst (tick pause s objs fc) \<noteq> []" using assms tick_length [of pause s objs fc] by auto
  have "map mass (fst (tick pause s objs fc)) = map mass objs"
    unfolding tick_def by (rule tick_loop_map) (rule process_body_fields)
  then show "mass (last (fst (tick pause s objs fc))) = mass (last objs)"
    using ne assms by (metis last_map)
  have "map density (fst (tick pause s objs fc)) = map density objs"
    unfolding tick_def by (rule tick_loop_map) (rule process_body_fields)
  then show "density (last (fst (tick pause s objs fc))) = density (last objs)"
    using ne assms by (metis last_map)
  have "map Initalizing (fst (tick pause s objs fc)) = map Initalizing objs"
    unfolding tick_def by (rule tick_loop_map) (rule process_body_fields)
  then show "Initalizing (last (fst (tick pause s objs fc))) = Initalizing (last objs)"
    using ne assms by (metis last_map)
qed

lemma trail_count_all:
  "(\<And>obj. obj \<in> set objs \<Longrightarrow> hasTrail obj) \<Longrightarrow> trail_count False objs = int (length objs)"
  by (induction objs) (simp_all add: trail_count_def)

lemma tick_all_trails:
  assumes all: "\<And>obj. obj \<in> set objs \<Longrightarrow>
                  hasTrail obj \<and> maxTrailLength obj = 30 \<and> length (trailSpheres obj) < 30"
    and j: "j < length objs"
  shows "hasTrail (fst (tick False s objs fc) ! j) \<and>
         maxTrailLength (fst (tick False s objs fc) ! j) = 30 \<and>
         length (trailSpheres (fst (tick False s objs fc) ! j)) =
           length (trailSpheres (objs ! j)) + (if (fc + int j + 1) mod 5 = 0 then 1 else 0)"
proof -
  have "set (take j objs) \<subseteq> set objs" by (rule set_take_subset)
  then have "trail_count False (take j objs) = int (length (take j objs))"
    using all by (intro trail_count_all) auto
  then have cnt: "fc + trail_count False (take j objs) = fc + int j" using j by simp
  have oj: "hasTrail (objs ! j)" "maxTrailLength (objs ! j) = 30"
    "length (trailSpheres (objs ! j)) < 30"
    using all [of "objs ! j"] j by simp_all
  show ?thesis
    unfolding tick_def tick_loop_nth [of 0 j objs False s fc, OF le0 j]
    using process_body_trail_size [OF oj, where s = s and i = j and fc = "fc + int j"] cnt
    by (simp add: add.commute add.left_commute)
qed

lemma tick_five:
  assumes "fc mod 5 = 0" "n < 30"
    and "objs = [a, b, c', d, e]"
    and "trail_ready 0 a" "trail_ready 0 b" "trail_ready 0 c'" "trail_ready 0 d" "trail_ready n e"
  shows "\<exists>a' b' c'' d' e'. tick False s objs fc = ([a', b', c'', d', e'], fc + 5) \<and>
           trail_ready 0 a' \<and> trail_ready 0 b' \<and> trail_ready 0 c'' \<and> trail_ready 0 d' \<and>
           trail_ready (Suc n) e'"
proof -
  let ?res = "fst (tick False s objs fc)"
  have len: "length ?res = 5" using assms(3) by (simp add: tick_length)
  then obtain a' b' c'' d' e' where res: "?res = [a', b', c'', d', e']"
    by (auto simp add: length_Suc_conv eval_nat_numeral)
  have all: "hasTrail obj \<and> maxTrailLength obj = 30 \<and> length (trailSpheres obj) < 30"
    if "obj \<in> set objs" for obj
    using that assms by (auto simp add: trail_ready_def)
  have m: "((fc + int j + 1) mod 5 = 0) = (j = 4)" if "j < 5" for j
    using assms(1) that by presburger
  have step: "hasTrail (?res ! j) \<and> maxTrailLength (?res ! j) = 30 \<and>
              length (trailSpheres (?res ! j)) =
                length (trailSpheres (objs ! j)) + (if j = 4 then 1 else 0)"
    if "j < 5" for j
  proof -
    have "j < length objs" using that assms(3) by simp
    from tick_all_trails [of objs j s fc, OF all this] show ?thesis
      unfolding m [OF that] .
  qed
  have "snd (tick False s objs fc) = fc + 5"
    using trail_count_all [of objs] all assms(3)
    by (simp add: tick_def tick_loop_counter)
  then have t: "tick False s objs fc = ([a', b', c'', d', e'], fc + 5)"
    using res by (simp add: prod_eq_iff)
  have "trail_ready 0 a'"
    using step [of 0] res assms by (simp add: trail_ready_def)
  moreover have "trail_ready 0 b'"
    using step [of 1] res assms by (simp add: trail_ready_def)
  moreover have "trail_ready 0 c''"
    using step [of 2] res assms by (simp add: trail_ready_def)
  moreover have "trail_ready 0 d'"
    using step [of 3] res assms by (simp add: trail_ready_def)
  moreover have "trail_ready (Suc n) e'"
    using step [of 4] res assms by (simp add: trail_ready_def)
  ultimately show ?thesis using t by blast
qed

lemma ticks_five:
  assumes "fc mod 5 = 0" "n + k \<le> 30"
    and "trail_ready 0 a" "trail_ready 0 b" "trail_ready 0 c'" "trail_ready 0 d" "trail_ready n e"
  shows "trail_sizes (fst (ticks k False s ([a, b, c', d, e], fc))) = [0, 0, 0, 0, n + k]"
  using assms
proof (induction k arbitrary: fc n a b c' d e)
  case 0
  then show ?case by (simp add: trail_sizes_def trail_ready_def)
next
  case (Suc k)
  from Suc.prems have n: "n < 30" by simp
  from tick_five [OF Suc.prems(1) n refl Suc.prems(3-7), of s]
  obtain a' b' c'' d' e' where
    t: "tick False s [a, b, c', d, e] fc = ([a', b', c'', d', e'], fc + 5)"
    and r: "trail_ready 0 a'" "trail_ready 0 b'" "trail_ready 0 c''" "trail_ready 0 d'"
      "trail_ready (Suc n) e'"
    by blast
  have f: "(fc + 5) mod 5 = 0" using Suc.prems(1) by presburger
  have "Suc n + k \<le> 30" using Suc.prems(2) by simp
  from Suc.IH [OF f this r] t show ?case by simp
qed

lemma trail_count_flags:
  "trail_count False objs = int (length (filter id (map hasTrail objs)))"
  by (simp add: trail_count_def filter_map comp_def)

lemma tick_single_trail:
  assumes flags: "map hasTrail objs = replicate j False @ True # replicate k False"
    and r: "maxTrailLength (objs ! j) = 30" "length (trailSpheres (objs ! j)) < 30"
  shows "snd (tick False s objs fc) = fc + 1"
    and "map hasTrail (fst (tick False s objs fc)) = map hasTrail objs"
    and "maxTrailLength (fst (tick False s objs fc) ! j) = 30"
    and "length (trailSpheres (fst (tick False s objs fc) ! j)) =
           length (trailSpheres (objs ! j)) + (if (fc + 1) mod 5 = 0 then 1 else 0)"
proof -
  have len: "length objs = j + Suc k"
    using arg_cong [OF flags, of length] by simp
  then have j: "j < length objs" by simp
  have "map hasTrail (take j objs) = replicate j False"
    using arg_cong [OF flags, of "take j"] by (simp add: take_map)
  then have before: "trail_count False (take j objs) = 0"
    by (simp add: trail_count_flags)
  have "hasTrail (objs ! j) = (map hasTrail objs ! j)" using j by simp
  then have h: "hasTrail (objs ! j)" unfolding flags by (simp add: nth_append)
  show "snd (tick False s objs fc) = fc + 1"
    by (simp add: tick_def tick_loop_counter trail_count_flags flags)
  show "map hasTrail (fst (tick False s objs fc)) = map hasTrail objs"
    unfolding tick_def by (rule tick_loop_map) (rule process_body_fields)
  from process_body_trail_size [OF h r, where s = s and i = j and fc = fc]
  show "maxTrailLength (fst (tick False s objs fc) ! j) = 30"
    and "length (trailSpheres (fst (tick False s objs fc) ! j)) =
           length (trailSpheres (objs ! j)) + (if (fc + 1) mod 5 = 0 then 1 else 0)"
    unfolding tick_def tick_loop_nth [of 0 j objs False s fc, OF le0 j] using before by simp_all
qed

lemma single_trail_cadence:
  assumes "map hasTrail objs = replicate j False @ True # replicate k False"
    and "maxTrailLength (objs ! j) = 30"
    and "0 \<le> fc"
    and "length (trailSpheres (objs ! j)) + (nat (fc + int n) div 5 - nat fc div 5) < 30"
  shows "length (trailSpheres (fst (ticks n False s (objs, fc)) ! j)) =
           length (trailSpheres (objs ! j)) + (nat (fc + int n) div 5 - nat fc div 5)"
  using assms
proof (induction n arbitrary: objs fc)
  case 0
  then show ?case by simp
next
  case (Suc n)
  obtain objs1 fc1 where t: "tick False s objs fc = (objs1, fc1)"
    by (cases "tick False s objs fc")
  let ?g = "if (fc + 1) mod 5 = 0 then 1 else (0::nat)"
  have mono: "nat fc div 5 \<le> nat (fc + 1) div 5" "nat (fc + 1) div 5 \<le> nat (fc + 1 + int n) div 5"
    using Suc.prems(3) by (auto intro!: div_le_mono)
  have g: "nat (fc + 1) div 5 = nat fc div 5 + ?g"
  proof -
    obtain m where m: "fc = int m" using Suc.prems(3) by (auto dest: zero_le_imp_eq_int)
    have "((int m + 1) mod 5 = 0) = (Suc m mod 5 = 0)" by presburger
    moreover have "nat (int m + 1) = Suc m" by simp
    ultimately show ?thesis unfolding m by (simp add: div_Suc)
  qed
  have small: "length (trailSpheres (objs ! j)) < 30" using Suc.prems(4) by simp
  note one = tick_single_trail [OF Suc.prems(1,2) small, of s fc]
  have f1: "fc1 = fc + 1" and fl: "map hasTrail objs1 = replicate j False @ True # replicate k False"
    and mx: "maxTrailLength (objs1 ! j) = 30"
    and sz: "length (trailSpheres (objs1 ! j)) = length (trailSpheres (objs ! j)) + ?g"
    using one t Suc.prems(1) by simp_all
  have split: "nat (fc + int (Suc n)) div 5 - nat fc div 5 =
               ?g + (nat (fc1 + int n) div 5 - nat fc1 div 5)"
    using mono g f1 by (simp add: algebra_simps)
  have "length (trailSpheres (objs1 ! j)) + (nat (fc1 + int n) div 5 - nat fc1 div 5) < 30"
    using Suc.prems(4) sz split by simp
  from Suc.IH [OF fl mx _ this] f1 Suc.prems(3) t sz split show ?case by simp
qed
















lemma grow_last_last:
  assumes "objs \<noteq> []" "Initalizing (last objs)"
  shows "grow_last True dt objs \<noteq> []"
    and "mass (last (grow_last True dt objs)) = mass (last objs) * (1 + dt)"
    and "density (last (grow_last True dt objs)) = density (last objs)"
    and "Initalizing (last (grow_last True dt objs))"
  using assms by (simp_all add: grow_last_def Let_def last_conv_nth)

lemma grow_frames_last:
  assumes "objs \<noteq> []" "Initalizing (last objs)"
  shows "fst (grow_frames dts (objs, fc)) \<noteq> [] \<and>
         Initalizing (last (fst (grow_frames dts (objs, fc)))) \<and>
         mass (last (fst (grow_frames dts (objs, fc)))) =
           mass (last objs) * prod_list (map (\<lambda>dt. 1 + dt) dts) \<and>
         (radius_ok (last objs) \<longrightarrow> radius_ok (last (fst (grow_frames dts (objs, fc)))))"
  using assms
proof (induction dts arbitrary: objs fc)
  case Nil
  then show ?case by simp
next
  case (Cons dt dts)
  let ?g = "grow_last True dt objs"
  obtain objs1 fc1 where t: "tick False 1 ?g fc = (objs1, fc1)"
    by (cases "tick False 1 ?g fc")
  note g = grow_last_last [OF Cons.prems, of dt]
  have l: "objs1 \<noteq> []" using tick_length [of False 1 ?g fc] t g(1) by auto
  have m: "mass (last objs1) = mass (last objs) * (1 + dt)" and i: "Initalizing (last objs1)"
    using tick_last [OF g(1), of False 1 fc] t g by simp_all
  have "list_all radius_ok (fst (tick False 1 ?g fc))" by (rule tick_radius_ok) simp
  then have "radius_ok (last objs1)" using t l by (simp add: list_all_iff)
  with Cons.IH [OF l i, of fc1] t m show ?case by (simp add: mult.assoc)
qed

lemma grow_product_lower_bound:
  "(\<And>dt. dt \<in> set dts \<Longrightarrow> 0 \<le> dt) \<Longrightarrow>
     1 + sum_list dts \<le> prod_list (map (\<lambda>dt. 1 + dt) dts)" for dts :: "real list"
proof (induction dts)
  case Nil
  then show ?case by simp
next
  case (Cons dt dts)
  then have ih: "1 + sum_list dts \<le> prod_list (map (\<lambda>dt. 1 + dt) dts)" and dt: "0 \<le> dt"
    and s: "0 \<le> sum_list dts"
    by (simp_all add: sum_list_nonneg)
  have "1 + (dt + sum_list dts) \<le> (1 + dt) * (1 + sum_list dts)"
    using dt s by (simp add: algebra_simps)
  also have "\<dots> \<le> (1 + dt) * prod_list (map (\<lambda>dt. 1 + dt) dts)"
    using ih dt by (intro mult_left_mono) simp_all
  finally show ?case by simp
qed

text \<open>
  C6. The constructor stores the radius that the formula of the source gives for the mass
  and density it stores; creating a body, growing the last one, releasing it and a tick
  (paused or not) keep this true of every body of the vector, and an unpaused tick
  establishes it whatever the radii were. For a positive mass and density the formula is
  the cube root of the claim, \<open>root 3 ((3 * mass / density) / (4 * \<pi>)) / 100000\<close>, with
  the literal \<open>3.14159265359\<close> that the source writes for \<open>\<pi>\<close>.
\<close>

theorem radius_follows_mass:
  "radius_ok (Object_new p v m d) \<and>
   (list_all radius_ok objs \<longrightarrow>
      list_all radius_ok (mouse_press objs) \<and>
      list_all radius_ok (grow_last pressed dt objs) \<and>
      list_all radius_ok (fst (tick pause s objs fc)) \<and>
      list_all radius_ok (case mouse_release objs of None \<Rightarrow> [] | Some objs' \<Rightarrow> objs')) \<and>
   list_all radius_ok (fst (tick False s objs fc)) \<and>
   (0 < mass obj \<and> 0 < density obj \<and> radius_ok obj \<longrightarrow>
      radius obj = root 3 ((3 * mass obj / density obj) / (4 * 3.14159265359)) / 100000)"
proof -
  have "radius_ok (Object_new p v m d)" by (simp add: radius_ok_def Object_new_def)
  moreover have "list_all radius_ok (case mouse_release objs of None \<Rightarrow> [] | Some objs' \<Rightarrow> objs')"
    if "list_all radius_ok objs"
    using mouse_release_radius_ok [OF that] by (cases "mouse_release objs") simp_all
  moreover have "list_all radius_ok (fst (tick False s objs fc))"
    by (rule tick_radius_ok) simp
  moreover have "radius obj = root 3 ((3 * mass obj / density obj) / (4 * 3.14159265359)) / 100000"
    if "0 < mass obj \<and> 0 < density obj \<and> radius_ok obj"
    using that sphere_radius_cbrt [of "mass obj" "density obj"] by (simp add: radius_ok_def)
  ultimately show ?thesis
    using mouse_press_radius_ok [of objs] grow_last_radius_ok [of objs pressed dt]
      tick_radius_ok [of objs pause s fc] by blast
qed

theorem radius_follows_mass_witness:
  "list_all radius_ok pair_scene \<and>
   list_all radius_ok (mouse_press pair_scene) \<and>
   list_all radius_ok (grow_last True 1 pair_scene) \<and>
   list_all radius_ok (fst (tick True 1 pair_scene 0)) \<and>
   0 < mass (pair_scene ! 0) \<and> 0 < density (pair_scene ! 0) \<and> radius_ok (pair_scene ! 0) \<and>
   radius (pair_scene ! 0) =
     root 3 ((3 * mass (pair_scene ! 0) / density (pair_scene ! 0)) / (4 * 3.14159265359)) / 100000"
proof -
  have h: "list_all radius_ok pair_scene"
    by (simp add: pair_scene_def radius_ok_def Object_new_def)
  have k: "0 < mass (pair_scene ! 0) \<and> 0 < density (pair_scene ! 0) \<and> radius_ok (pair_scene ! 0)"
    by (simp add: pair_scene_def radius_ok_def Object_new_def)
  from radius_follows_mass [of _ _ _ _ pair_scene True 1 True 1 0 "pair_scene ! 0"] h k
  show ?thesis by blast
qed



text \<open>
  The counter is a \<open>static\<close> local of \<open>UpdateTrail\<close>, one for all bodies, so this cadence
  rests on there being one trail-enabled body. Were five bodies given a trail, the counter
  would advance by five in every tick and reach a multiple of five at the last body only;
  no run of \<open>main\<close> reaches such a vector.
\<close>

lemma shared_counter_five_trails:
  "trail_sizes (fst (ticks 1 False s (trail_five a b c' d e, 0))) = [0, 0, 0, 0, 1] \<and>
   trail_sizes (fst (ticks 2 False s (trail_five a b c' d e, 0))) = [0, 0, 0, 0, 2] \<and>
   trail_sizes (fst (ticks 5 False s (trail_five a b c' d e, 0))) = [0, 0, 0, 0, 5] \<and>
   trail_sizes (fst (ticks 30 False s (trail_five a b c' d e, 0))) = [0, 0, 0, 0, 30]"
proof -
  have r: "trail_ready 0 (obj\<lparr>trailSpheres := [], maxTrailLength := 30, hasTrail := True\<rparr>)"
    for obj by (simp add: trail_ready_def)
  have "trail_sizes (fst (ticks k False s (trail_five a b c' d e, 0))) = [0, 0, 0, 0, 0 + k]"
    if "k \<le> 30" for k
    unfolding trail_five_def list.map
    by (rule ticks_five [OF _ _ r r r r r]) (use that in simp_all)
  from this [of 1] this [of 2] this [of 5] this [of 30] show ?thesis by simp
qed

text \<open>
  C9 on the code: a body created by the left button and grown with the right button held
  over frames of lengths \<open>dts\<close> ends with its initial mass times the product of
  \<open>1 + deltaTime\<close> over the frames: four times the mass after two frames of one second,
  at least three times after 120 frames of a sixtieth of a second (and, by
  \<open>grow_product_lower_bound\<close>, after any frames that add up to two seconds). The radius
  is the one the formula gives for that mass.
\<close>

theorem grow_frames_mass:
  "mass (last (fst (grow_frames dts (mouse_press objs, fc)))) =
     initMass * prod_list (map (\<lambda>deltaTime. 1 + deltaTime) dts) \<and>
   mass (last (fst (grow_frames [1, 1] (mouse_press objs, fc)))) = 4 * initMass \<and>
   3 * initMass \<le> mass (last (fst (grow_frames (replicate 120 (1 / 60)) (mouse_press objs, fc)))) \<and>
   radius_ok (last (fst (grow_frames dts (mouse_press objs, fc))))"
proof -
  have ne: "mouse_press objs \<noteq> []" and i: "Initalizing (last (mouse_press objs))"
    and m: "mass (last (mouse_press objs)) = initMass"
    by (simp_all add: mouse_press_def Object_new_def)
  note gen = grow_frames_last [OF ne i]
  have "radius_ok (last (mouse_press objs))"
    by (simp add: mouse_press_def radius_ok_def Object_new_def)
  with gen [of dts fc] have r: "radius_ok (last (fst (grow_frames dts (mouse_press objs, fc))))"
    by simp
  have "1 + sum_list (replicate 120 (1 / 60 :: real)) \<le>
          prod_list (map (\<lambda>dt. 1 + dt) (replicate 120 (1 / 60)))"
    by (rule grow_product_lower_bound) simp
  then have "3 \<le> prod_list (map (\<lambda>dt. 1 + dt) (replicate 120 (1 / 60 :: real)))"
    by (simp add: sum_list_replicate)
  moreover have "0 \<le> initMass" by (simp add: initMass_def)
  ultimately have "3 * initMass \<le>
      initMass * prod_list (map (\<lambda>dt. 1 + dt) (replicate 120 (1 / 60 :: real)))"
    by (simp add: mult.commute mult_left_mono)
  then have sixty: "3 * initMass \<le>
      mass (last (fst (grow_frames (replicate 120 (1 / 60)) (mouse_press objs, fc))))"
    using gen [of "replicate 120 (1 / 60)" fc] m by simp
  show ?thesis using gen [of dts fc] gen [of "[1, 1]" fc] m r sixty by simp
qed

end
